theory Spec2Isabelle
  imports Complex_Main "HOL-Library.Multiset"
begin

section \<open>The task pipeline demonstrations: data model\<close>

text \<open>
  The development embeds the two instrumented pipeline programs,
  \<^verbatim>\<open>omp_tasks_pipeline_gantt.c\<close> and \<^verbatim>\<open>omp_tasks_pipeline_overlap.c\<close>, and the
  argument parser of \<^verbatim>\<open>omp_tasks_depend.c\<close>.

  Conventions.
  \<^item> A C \<^verbatim>\<open>int\<close> is a HOL \<open>int\<close>. Where a value can leave the 32-bit range
    (\<^verbatim>\<open>3 * items\<close>, \<^verbatim>\<open>3 * i + 1\<close>, the cast \<^verbatim>\<open>(int)v\<close> of a \<^verbatim>\<open>long\<close>) the
    two's-complement wrap-around is written out with \<open>to_int32\<close>. In
    \<^verbatim>\<open>time_to_col\<close> and \<^verbatim>\<open>draw_event\<close> every intermediate value lies between
    \<open>0\<close> and \<open>width\<close> once \<open>width \<ge> 1\<close>, so nothing wraps there.
  \<^item> A C \<^verbatim>\<open>double\<close> holding a clock reading is a HOL \<open>real\<close> (clock readings are
    finite, never NaN). The comparisons of the source are exact on such values. The two
    arithmetic operations of \<^verbatim>\<open>time_to_col\<close> round their exact result; the rounding
    of the double format is the parameter \<open>rnd\<close> of the model, so that every theorem
    holds for exact arithmetic (\<open>rnd = id\<close>) and for any rounding that satisfies the
    stated hypothesis.
  \<^item> A write through a pointer outside its array and a division by zero are values of
    the type \<open>fault\<close>: the model returns \<open>Inl\<close> where the C program would have
    undefined behaviour.
\<close>

datatype fault = DivisionByZero | OutOfBounds

text \<open>Conversion to \<^verbatim>\<open>int\<close> (32 bits, two's complement) and to \<^verbatim>\<open>size_t\<close> (64 bits).\<close>

definition to_int32 :: "int \<Rightarrow> int" where
  "to_int32 x = (x + 2 ^ 31) mod 2 ^ 32 - 2 ^ 31"

definition to_size_t :: "int \<Rightarrow> int" where
  "to_size_t x = x mod 2 ^ 64"


text \<open>\<^verbatim>\<open>long\<close> has 64 bits on the LP64 platforms the Makefile builds for.\<close>

definition LONG_MAX :: int where
  "LONG_MAX = 2 ^ 63 - 1"

definition LONG_MIN :: int where
  "LONG_MIN = - (2 ^ 63)"

text \<open>
  Array accesses \<^verbatim>\<open>a[i] = v\<close> and \<^verbatim>\<open>a[i]\<close>. An array is the list of its elements;
  an index outside it is a fault.
\<close>

definition store :: "'a list \<Rightarrow> int \<Rightarrow> 'a \<Rightarrow> fault + 'a list" where
  "store a i v = (if 0 \<le> i \<and> nat i < length a then Inr (a[nat i := v]) else Inl OutOfBounds)"

definition fetch :: "'a list \<Rightarrow> int \<Rightarrow> fault + 'a" where
  "fetch a i = (if 0 \<le> i \<and> nat i < length a then Inr (a ! nat i) else Inl OutOfBounds)"

text \<open>
  \<^verbatim>\<open>calloc(nmemb, size)\<close>: whether the C library finds the memory is the flag \<open>ok\<close>,
  given by the environment; a request whose byte count does not fit \<^verbatim>\<open>size_t\<close>
  fails always. The block holds \<open>nmemb\<close> elements, each the all-zero value \<open>z\<close>.
\<close>

definition calloc :: "bool \<Rightarrow> int \<Rightarrow> int \<Rightarrow> 'a \<Rightarrow> 'a list option" where
  "calloc ok nmemb sz z =
     (if ok \<and> nmemb * sz < 2 ^ 64 then Some (replicate (nat nmemb) z) else None)"

subsection \<open>Events\<close>

record event =
  item :: int
  stage :: char
  tid :: int
  t_start :: real
  t_end :: real

definition zero_event :: event where
  "zero_event = \<lparr>item = 0, stage = CHR 0x00, tid = 0, t_start = 0, t_end = 0\<rparr>"

definition stage_index :: "char \<Rightarrow> int" where
  "stage_index s = (if s = CHR ''A'' then 0 else if s = CHR ''B'' then 1 else 2)"

text \<open>\<^verbatim>\<open>cmp_event\<close> of the overlap program.\<close>

definition cmp_event :: "event \<Rightarrow> event \<Rightarrow> int" where
  "cmp_event a b =
     (if t_start a < t_start b then - 1
      else if t_start a > t_start b then 1
      else if item a < item b then - 1
      else if item a > item b then 1
      else (let sa = stage_index (stage a); sb = stage_index (stage b)
            in if sa < sb then - 1 else if sa > sb then 1 else 0))"

text \<open>\<^verbatim>\<open>cmp_event_start\<close> of the gantt program.\<close>

definition cmp_event_start :: "event \<Rightarrow> event \<Rightarrow> int" where
  "cmp_event_start a b =
     (if t_start a < t_start b then - 1
      else if t_start a > t_start b then 1
      else if tid a < tid b then - 1
      else if tid a > tid b then 1
      else if item a < item b then - 1
      else if item a > item b then 1
      else (let sa = stage_index (stage a); sb = stage_index (stage b)
            in if sa < sb then - 1 else if sa > sb then 1 else 0))"








section \<open>The Gantt renderer\<close>

text \<open>The division \<^verbatim>\<open>t / total\<close> on doubles, rounded; a zero divisor is a fault.\<close>

definition fdiv :: "(real \<Rightarrow> real) \<Rightarrow> real \<Rightarrow> real \<Rightarrow> fault + real" where
  "fdiv rnd a b = (if b = 0 then Inl DivisionByZero else Inr (rnd (a / b)))"

text \<open>The cast \<^verbatim>\<open>(int)d\<close> of a double: truncation towards zero.\<close>

definition double_to_int :: "real \<Rightarrow> int" where
  "double_to_int d = (if 0 \<le> d then \<lfloor>d\<rfloor> else \<lceil>d\<rceil>)"

definition time_to_col :: "(real \<Rightarrow> real) \<Rightarrow> real \<Rightarrow> real \<Rightarrow> int \<Rightarrow> fault + int" where
  "time_to_col rnd t tot width =
     (if tot \<le> 0 then Inr 0
      else case fdiv rnd t tot of
        Inl f \<Rightarrow> Inl f
      | Inr x0 \<Rightarrow>
          let x1 = (if x0 < 0 then 0 else x0);
              x2 = (if x1 > 1 then 1 else x1);
              col0 = double_to_int (rnd (x2 * of_int (width - 1)));
              col1 = (if col0 < 0 then 0 else col0);
              col2 = (if col1 \<ge> width then width - 1 else col1)
          in Inr col2)"

text \<open>
  A timeline row is the string of its \<open>width\<close> characters (the terminating NUL of the
  C buffer is not part of the string), so that a write at column \<open>width\<close> or beyond is
  a fault of \<open>store\<close>.

  The loop \<^verbatim>\<open>for (int c = c0; c <= c1 && c < width; ++c) row[c] = e->stage;\<close>
\<close>

function paint_cols :: "string \<Rightarrow> int \<Rightarrow> int \<Rightarrow> int \<Rightarrow> char \<Rightarrow> fault + string" where
  "paint_cols row width c c1 ch =
     (if c \<le> c1 \<and> c < width
      then (case store row c ch of
              Inl f \<Rightarrow> Inl f
            | Inr row' \<Rightarrow> paint_cols row' width (c + 1) c1 ch)
      else Inr row)"
  by pat_completeness auto
termination
  by (relation "measure (\<lambda>(row, width, c, c1, ch). nat (c1 + 1 - c))") auto

text \<open>The character \<^verbatim>\<open>(char)('0' + d)\<close>.\<close>

definition digit_char :: "int \<Rightarrow> char" where
  "digit_char d = char_of (of_char (CHR ''0'') + d)"

text \<open>
  The annotation block of \<^verbatim>\<open>draw_event\<close> (lines 181-192). The quotient and remainder
  are taken only when \<open>10 \<le> item \<le> 99\<close>, where C's truncating division and HOL's
  agree.
\<close>

definition annotate :: "string \<Rightarrow> int \<Rightarrow> event \<Rightarrow> int \<Rightarrow> fault + string" where
  "annotate row width e c0 =
     (if c0 + 2 < width then
        (let it = item e in
         if it \<ge> 0 \<and> it \<le> 99 then
           (case store row c0 (stage e) of
              Inl f \<Rightarrow> Inl f
            | Inr r1 \<Rightarrow>
                if it \<ge> 10 then
                  (case store r1 (c0 + 1) (digit_char (it div 10)) of
                     Inl f \<Rightarrow> Inl f
                   | Inr r2 \<Rightarrow> store r2 (c0 + 2) (digit_char (it mod 10)))
                else store r1 (c0 + 1) (digit_char it))
         else Inr row)
      else Inr row)"

definition draw_event :: "(real \<Rightarrow> real) \<Rightarrow> string \<Rightarrow> int \<Rightarrow> event \<Rightarrow> real \<Rightarrow> fault + string" where
  "draw_event rnd row width e tot =
     (case time_to_col rnd (t_start e) tot width of
        Inl f \<Rightarrow> Inl f
      | Inr a \<Rightarrow>
     (case time_to_col rnd (t_end e) tot width of
        Inl f \<Rightarrow> Inl f
      | Inr b \<Rightarrow>
          let c0 = (if b < a then b else a);
              c1 = (if b < a then a else b)
          in if c0 = c1 then store row c0 (stage e)
             else (case paint_cols row width c0 c1 (stage e) of
                     Inl f \<Rightarrow> Inl f
                   | Inr row' \<Rightarrow> annotate row' width e c0)))"

section \<open>Command-line arguments\<close>

text \<open>
  \<^verbatim>\<open>strtol(nptr, &end, 10)\<close> belongs to the C library; the model follows ISO C 7.22.1.4
  in the C locale: white space is skipped, a sign is optional, the longest run of decimal
  digits is converted. The result is the value, the number of characters consumed
  (\<^verbatim>\<open>end - nptr\<close>, which is 0 when there is no digit) and whether \<^verbatim>\<open>errno\<close> was
  set to \<^verbatim>\<open>ERANGE\<close> because the value does not fit \<^verbatim>\<open>long\<close>.
\<close>

definition isspace :: "char \<Rightarrow> bool" where
  "isspace c = (c \<in> set [CHR '' '', CHR 0x09, CHR 0x0A, CHR 0x0B, CHR 0x0C, CHR 0x0D])"

definition isdigit :: "char \<Rightarrow> bool" where
  "isdigit c = (c \<in> set ''0123456789'')"

definition digit_value :: "char \<Rightarrow> int" where
  "digit_value c = of_char c - of_char (CHR ''0'')"

definition decimal :: "string \<Rightarrow> int" where
  "decimal ds = foldl (\<lambda>acc c. 10 * acc + digit_value c) 0 ds"

definition strtol :: "string \<Rightarrow> int \<times> nat \<times> bool" where
  "strtol s =
     (let ws = takeWhile isspace s;
          s1 = dropWhile isspace s;
          neg = (take 1 s1 = ''-'');
          sgn = (if take 1 s1 = ''-'' \<or> take 1 s1 = ''+'' then 1 else 0);
          ds = takeWhile isdigit (drop sgn s1);
          v = (if neg then - decimal ds else decimal ds);
          n = length ws + sgn + length ds
      in if ds = [] then (0, 0, False)
         else if v > LONG_MAX then (LONG_MAX, n, True)
         else if v < LONG_MIN then (LONG_MIN, n, True)
         else (v, n, False))"


text \<open>
  What the programs write to \<^verbatim>\<open>stderr\<close>, one constructor for each
  \<^verbatim>\<open>fprintf(stderr, ...)\<close> of the sources:
  \<^item> \<open>Invalid_integer index arg\<close>: \<^verbatim>\<open>Invalid integer value at argv[%d]: '%s'\<close>
  \<^item> \<open>Usage prog synopsis\<close>: \<^verbatim>\<open>Usage: %s\<close> followed by the synopsis of the arguments
  \<^item> \<open>Items_not_positive\<close>: \<^verbatim>\<open>items must be > 0\<close>
  \<^item> \<open>Width_too_small\<close>: \<^verbatim>\<open>width must be >= 40 for readable output\<close>
  \<^item> \<open>Print_events_not_01\<close>: \<^verbatim>\<open>print_events must be 0 or 1\<close>
  \<^item> \<open>Verbosity_not_01\<close>: \<^verbatim>\<open>verbosity must be 0 or 1\<close>
  \<^item> \<open>Alloc_failure_tokens\<close>: \<^verbatim>\<open>Allocation failure for dependency tokens.\<close>
  \<^item> \<open>Alloc_failure_event_log\<close>: \<^verbatim>\<open>Allocation failure for event log.\<close>
  \<^item> \<open>Alloc_failure_rows\<close>: \<^verbatim>\<open>Allocation failure for timeline rows.\<close>
  \<^item> \<open>Alloc_failure_row t\<close>: \<^verbatim>\<open>Allocation failure for timeline row %d.\<close>
\<close>

datatype diag =
    Invalid_integer nat string
  | Usage string string
  | Items_not_positive
  | Width_too_small
  | Print_events_not_01
  | Verbosity_not_01
  | Alloc_failure_tokens
  | Alloc_failure_event_log
  | Alloc_failure_rows
  | Alloc_failure_row int

text \<open>
  \<^verbatim>\<open>parse_int_or_default\<close>, once for each file that has it. \<open>argc\<close> is the length of
  \<open>argv\<close>. \<open>Inl ds\<close>: the function wrote the lines \<open>ds\<close> to \<^verbatim>\<open>stderr\<close> and called
  \<^verbatim>\<open>exit(1)\<close>. \<^verbatim>\<open>end == argv[index]\<close> is \<open>n = 0\<close> and \<^verbatim>\<open>*end != '\0'\<close> is
  \<open>n \<noteq> length arg\<close>. The value returned is the cast \<^verbatim>\<open>(int)v\<close>.
\<close>

definition parse_int_or_default_gantt :: "string list \<Rightarrow> nat \<Rightarrow> int \<Rightarrow> diag list + int" where
  "parse_int_or_default_gantt argv index dflt =
     (if length argv \<le> index then Inr dflt
      else case strtol (argv ! index) of (v, n, erange) \<Rightarrow>
        if erange \<or> n = 0 \<or> n \<noteq> length (argv ! index)
        then Inl [Invalid_integer index (argv ! index),
                  Usage (argv ! 0) ''[items] [width] [print_events]'']
        else Inr (to_int32 v))"

definition parse_int_or_default_overlap :: "string list \<Rightarrow> nat \<Rightarrow> int \<Rightarrow> diag list + int" where
  "parse_int_or_default_overlap argv index default_value =
     (if length argv \<le> index then Inr default_value
      else case strtol (argv ! index) of (v, n, erange) \<Rightarrow>
        if erange \<or> n = 0 \<or> n \<noteq> length (argv ! index)
        then Inl [Invalid_integer index (argv ! index),
                  Usage (argv ! 0) ''[items] [verbosity]'']
        else Inr (to_int32 v))"

text \<open>The parser of \<^verbatim>\<open>omp_tasks_depend.c\<close> also refuses \<^verbatim>\<open>v <= 0\<close>.\<close>

definition parse_int_or_default_depend :: "string list \<Rightarrow> nat \<Rightarrow> int \<Rightarrow> diag list + int" where
  "parse_int_or_default_depend argv index default_value =
     (if length argv \<le> index then Inr default_value
      else case strtol (argv ! index) of (v, n, erange) \<Rightarrow>
        if erange \<or> n = 0 \<or> n \<noteq> length (argv ! index) \<or> v \<le> 0
        then Inl [Invalid_integer index (argv ! index),
                  Usage (argv ! 0) ''[N]'']
        else Inr (to_int32 v))"

section \<open>The pipeline\<close>

text \<open>
  The three task bodies of the loop in \<^verbatim>\<open>main\<close>. What the OpenMP runtime decides
  for one execution of a task body is an \<open>exec\<close>: the loop index \<open>i\<close> the task
  captured (\<^verbatim>\<open>firstprivate(i)\<close>), which of the three bodies it is, the thread that
  ran it (\<^verbatim>\<open>omp_get_thread_num()\<close>) and the two clock readings
  \<^verbatim>\<open>omp_get_wtime() - t0\<close>. The state the bodies share is the two token arrays and
  the event log.
\<close>

datatype task_kind = StageA | StageB | StageC

record exec =
  x_item :: int
  x_kind :: task_kind
  x_tid :: int
  x_start :: real
  x_end :: real

record pipeline =
  token_a :: "int list"
  token_b :: "int list"
  events :: "event list"

definition stage_a :: "pipeline \<Rightarrow> exec \<Rightarrow> fault + pipeline" where
  "stage_a st x =
     (let i = x_item x;
          idx = to_int32 (to_int32 (3 * i) + 0)
      in case store (events st) idx
                \<lparr>item = i, stage = CHR ''A'', tid = x_tid x,
                 t_start = x_start x, t_end = x_end x\<rparr> of
           Inl f \<Rightarrow> Inl f
         | Inr ev \<Rightarrow>
             (case store (token_a st) i i of
                Inl f \<Rightarrow> Inl f
              | Inr ta \<Rightarrow> Inr (st\<lparr>token_a := ta, events := ev\<rparr>)))"

definition stage_b :: "pipeline \<Rightarrow> exec \<Rightarrow> fault + pipeline" where
  "stage_b st x =
     (let i = x_item x;
          idx = to_int32 (to_int32 (3 * i) + 1)
      in case store (events st) idx
                \<lparr>item = i, stage = CHR ''B'', tid = x_tid x,
                 t_start = x_start x, t_end = x_end x\<rparr> of
           Inl f \<Rightarrow> Inl f
         | Inr ev \<Rightarrow>
             (case fetch (token_a st) i of
                Inl f \<Rightarrow> Inl f
              | Inr a \<Rightarrow>
                  (case store (token_b st) i (to_int32 (a * 2)) of
                     Inl f \<Rightarrow> Inl f
                   | Inr tb \<Rightarrow> Inr (st\<lparr>token_b := tb, events := ev\<rparr>))))"

definition stage_c :: "pipeline \<Rightarrow> exec \<Rightarrow> fault + pipeline" where
  "stage_c st x =
     (let i = x_item x;
          idx = to_int32 (to_int32 (3 * i) + 2)
      in case store (events st) idx
                \<lparr>item = i, stage = CHR ''C'', tid = x_tid x,
                 t_start = x_start x, t_end = x_end x\<rparr> of
           Inl f \<Rightarrow> Inl f
         | Inr ev \<Rightarrow>
             (case fetch (token_b st) i of
                Inl f \<Rightarrow> Inl f
              | Inr b \<Rightarrow> Inr (st\<lparr>events := ev\<rparr>)))"

definition run_task :: "pipeline \<Rightarrow> exec \<Rightarrow> fault + pipeline" where
  "run_task st x =
     (case x_kind x of
        StageA \<Rightarrow> stage_a st x
      | StageB \<Rightarrow> stage_b st x
      | StageC \<Rightarrow> stage_c st x)"

text \<open>
  The executions of a run, one after the other, in any order. No two task bodies write
  the same cell of the event log (the slots are proved distinct below), so the log that
  a concurrent run leaves is the log that each of its serialisations leaves; the
  theorems on the log hold for every order of the executions.
\<close>

fun run_tasks :: "pipeline \<Rightarrow> exec list \<Rightarrow> fault + pipeline" where
  "run_tasks st [] = Inr st"
| "run_tasks st (x # xs) =
     (case run_task st x of
        Inl f \<Rightarrow> Inl f
      | Inr st' \<Rightarrow> run_tasks st' xs)"






section \<open>The two programs\<close>

text \<open>
  What a run of \<^verbatim>\<open>main\<close> depends on besides \<open>argv\<close>: which \<^verbatim>\<open>calloc\<close> calls find
  memory, what the OpenMP runtime does with the tasks, the last clock reading, the
  rounding of the double operations, and the C library's \<^verbatim>\<open>qsort\<close>.
\<close>

datatype block = TokenA | TokenB | Events | Rows | Row int

record env =
  env_calloc_ok :: "block \<Rightarrow> bool"
  env_runs :: "exec list"
  env_elapsed :: real
  env_rnd :: "real \<Rightarrow> real"
  env_qsort :: "(event \<Rightarrow> event \<Rightarrow> int) \<Rightarrow> event list \<Rightarrow> event list"

text \<open>
  What is observed of a run: the exit code, the lines on \<^verbatim>\<open>stderr\<close>, the blocks
  that \<^verbatim>\<open>calloc\<close> returned, those of them that were not passed to \<^verbatim>\<open>free\<close> before
  the exit, the number of task bodies executed, the event list printed and the rows of
  the chart printed. (The remaining text on \<^verbatim>\<open>stdout\<close> is not modelled.)
\<close>

record outcome =
  exit_code :: int
  err :: "diag list"
  allocated :: "block list"
  leaked :: "block list"
  ran :: nat
  shown :: "event list"
  chart :: "string list"

definition stopped :: "diag list \<Rightarrow> block list \<Rightarrow> block list \<Rightarrow> outcome" where
  "stopped ds got live =
     \<lparr>exit_code = 1, err = ds, allocated = got, leaked = live, ran = 0, shown = [], chart = []\<rparr>"

text \<open>\<^verbatim>\<open>free(p)\<close> for each block of a list in turn; \<^verbatim>\<open>free(NULL)\<close> does nothing.\<close>

definition frees :: "block list \<Rightarrow> block list \<Rightarrow> block list" where
  "frees bs live = foldl (\<lambda>l b. remove1 b l) live bs"

definition got :: "block \<Rightarrow> 'a option \<Rightarrow> block list" where
  "got b p = (case p of None \<Rightarrow> [] | Some a \<Rightarrow> [b])"

text \<open>The loop that finds \<^verbatim>\<open>max_tid\<close> (gantt, lines 314-319).\<close>

definition max_tid_of :: "event list \<Rightarrow> int" where
  "max_tid_of evs = foldl (\<lambda>m e. if tid e > m then tid e else m) 0 evs"

text \<open>
  The loop that allocates and fills the rows (lines 332-345), for the row numbers
  \<open>ts\<close> still to do. \<open>Inl (t, prev)\<close>: the allocation of row \<open>t\<close> failed after the
  rows \<open>prev\<close> had been allocated.
\<close>

fun alloc_rows :: "(block \<Rightarrow> bool) \<Rightarrow> int \<Rightarrow> int list \<Rightarrow> (int \<times> block list) + string list" where
  "alloc_rows ok width [] = Inr []"
| "alloc_rows ok width (t # ts) =
     (case calloc (ok (Row t)) (to_size_t width + 1) 1 (CHR 0x00) of
        None \<Rightarrow> Inl (t, [])
      | Some buf \<Rightarrow>
          (case alloc_rows ok width ts of
             Inl (t', prev) \<Rightarrow> Inl (t', Row t # prev)
           | Inr rows \<Rightarrow> Inr (replicate (nat width) (CHR ''.'') # rows)))"

text \<open>The loop that draws each event into the row of its thread (lines 348-353).\<close>

fun draw_all :: "(real \<Rightarrow> real) \<Rightarrow> string list \<Rightarrow> int \<Rightarrow> int \<Rightarrow> real \<Rightarrow> event list
    \<Rightarrow> fault + string list" where
  "draw_all rnd rows width used_threads tot [] = Inr rows"
| "draw_all rnd rows width used_threads tot (e # es) =
     (if tid e \<ge> 0 \<and> tid e < used_threads
      then (case fetch rows (tid e) of
              Inl f \<Rightarrow> Inl f
            | Inr row \<Rightarrow>
                (case draw_event rnd row width e tot of
                   Inl f \<Rightarrow> Inl f
                 | Inr row' \<Rightarrow>
                     draw_all rnd (rows[nat (tid e) := row']) width used_threads tot es))
      else draw_all rnd rows width used_threads tot es)"

text \<open>\<^verbatim>\<open>main\<close> of the gantt program from line 218 on, the arguments being valid.\<close>

definition gantt_body :: "env \<Rightarrow> int \<Rightarrow> int \<Rightarrow> int \<Rightarrow> fault + outcome" where
  "gantt_body env items width print_events =
     (let ok = env_calloc_ok env;
          ta = calloc (ok TokenA) (to_size_t items) 4 (0 :: int);
          tb = calloc (ok TokenB) (to_size_t items) 4 (0 :: int);
          live1 = got TokenA ta @ got TokenB tb
      in case (ta, tb) of
           (Some token_a0, Some token_b0) \<Rightarrow>
             (let total_events = to_int32 (3 * items) in
              case calloc (ok Events) (to_size_t total_events) 32 zero_event of
                None \<Rightarrow>
                  Inr (stopped [Alloc_failure_event_log] live1 (frees [TokenA, TokenB] live1))
              | Some events0 \<Rightarrow>
                  (case run_tasks \<lparr>token_a = token_a0, token_b = token_b0, events = events0\<rparr>
                          (env_runs env) of
                     Inl f \<Rightarrow> Inl f
                   | Inr st \<Rightarrow>
                       (let tot = env_elapsed env;
                            sorted_events = env_qsort env cmp_event_start (events st);
                            max_tid = max_tid_of sorted_events;
                            used_threads = to_int32 (max_tid + 1);
                            live2 = live1 @ [Events]
                        in case calloc (ok Rows) (to_size_t used_threads) 8 () of
                             None \<Rightarrow>
                               Inr \<lparr>exit_code = 1, err = [Alloc_failure_rows],
                                    allocated = live2,
                                    leaked = frees [TokenA, TokenB, Events] live2,
                                    ran = length (env_runs env), shown = [], chart = []\<rparr>
                           | Some rows0 \<Rightarrow>
                               (case alloc_rows ok width [0..used_threads - 1] of
                                  Inl (t, prev) \<Rightarrow>
                                    Inr \<lparr>exit_code = 1, err = [Alloc_failure_row t],
                                         allocated = live2 @ [Rows] @ prev,
                                         leaked = frees (prev @ [Rows, TokenA, TokenB, Events])
                                                    (live2 @ [Rows] @ prev),
                                         ran = length (env_runs env), shown = [], chart = []\<rparr>
                                | Inr rows \<Rightarrow>
                                    (case draw_all (env_rnd env) rows width used_threads tot
                                            sorted_events of
                                       Inl f \<Rightarrow> Inl f
                                     | Inr rows' \<Rightarrow>
                                         (let all_rows = map Row [0..used_threads - 1] in
                                          Inr \<lparr>exit_code = 0, err = [],
                                               allocated = live2 @ [Rows] @ all_rows,
                                               leaked = frees (all_rows @ [Rows, TokenA, TokenB, Events])
                                                          (live2 @ [Rows] @ all_rows),
                                               ran = length (env_runs env),
                                               shown = (if print_events \<noteq> 0 then sorted_events else []),
                                               chart = rows'\<rparr>))))))
         | _ \<Rightarrow> Inr (stopped [Alloc_failure_tokens] live1 live1))"

definition main_gantt :: "env \<Rightarrow> string list \<Rightarrow> fault + outcome" where
  "main_gantt env argv =
     (case parse_int_or_default_gantt argv 1 8 of
        Inl ds \<Rightarrow> Inr (stopped ds [] [])
      | Inr items \<Rightarrow>
     (case parse_int_or_default_gantt argv 2 80 of
        Inl ds \<Rightarrow> Inr (stopped ds [] [])
      | Inr width \<Rightarrow>
     (case parse_int_or_default_gantt argv 3 0 of
        Inl ds \<Rightarrow> Inr (stopped ds [] [])
      | Inr print_events \<Rightarrow>
          if items \<le> 0 then Inr (stopped [Items_not_positive] [] [])
          else if width < 40 then Inr (stopped [Width_too_small] [] [])
          else if print_events \<noteq> 0 \<and> print_events \<noteq> 1
          then Inr (stopped [Print_events_not_01] [] [])
          else gantt_body env items width print_events)))"

text \<open>\<^verbatim>\<open>main\<close> of the overlap program from line 152 on, the arguments being valid.\<close>

definition overlap_body :: "env \<Rightarrow> int \<Rightarrow> int \<Rightarrow> fault + outcome" where
  "overlap_body env items verbosity =
     (let ok = env_calloc_ok env;
          ta = calloc (ok TokenA) (to_size_t items) 4 (0 :: int);
          tb = calloc (ok TokenB) (to_size_t items) 4 (0 :: int);
          live1 = got TokenA ta @ got TokenB tb
      in case (ta, tb) of
           (Some token_a0, Some token_b0) \<Rightarrow>
             (let total_events = to_int32 (3 * items) in
              case calloc (ok Events) (to_size_t total_events) 32 zero_event of
                None \<Rightarrow>
                  Inr (stopped [Alloc_failure_event_log] live1 (frees [TokenA, TokenB] live1))
              | Some events0 \<Rightarrow>
                  (case run_tasks \<lparr>token_a = token_a0, token_b = token_b0, events = events0\<rparr>
                          (env_runs env) of
                     Inl f \<Rightarrow> Inl f
                   | Inr st \<Rightarrow>
                       (let sorted_events = env_qsort env cmp_event (events st);
                            live2 = live1 @ [Events]
                        in Inr \<lparr>exit_code = 0, err = [],
                                allocated = live2,
                                leaked = frees [TokenA, TokenB, Events] live2,
                                ran = length (env_runs env),
                                shown = (if verbosity = 0 then [] else sorted_events),
                                chart = []\<rparr>)))
         | _ \<Rightarrow> Inr (stopped [Alloc_failure_tokens] live1 live1))"

definition main_overlap :: "env \<Rightarrow> string list \<Rightarrow> fault + outcome" where
  "main_overlap env argv =
     (case parse_int_or_default_overlap argv 1 8 of
        Inl ds \<Rightarrow> Inr (stopped ds [] [])
      | Inr items \<Rightarrow>
     (case parse_int_or_default_overlap argv 2 1 of
        Inl ds \<Rightarrow> Inr (stopped ds [] [])
      | Inr verbosity \<Rightarrow>
          if items \<le> 0 then Inr (stopped [Items_not_positive] [] [])
          else if verbosity \<noteq> 0 \<and> verbosity \<noteq> 1
          then Inr (stopped [Verbosity_not_01] [] [])
          else overlap_body env items verbosity))"

section \<open>Column computation\<close>

lemma time_to_col_total_nonpos: "tot \<le> 0 \<Longrightarrow> time_to_col rnd t tot width = Inr 0"
  by (simp add: time_to_col_def)

lemma time_to_col_cases:
  assumes "1 \<le> width"
  obtains c where "time_to_col rnd t tot width = Inr c" "0 \<le> c" "c \<le> width - 1"
proof (cases "tot \<le> 0")
  case True
  then have "time_to_col rnd t tot width = Inr 0"
    by (rule time_to_col_total_nonpos)
  with assms that show thesis by simp
next
  case False
  then have nz: "tot \<noteq> 0" by simp
  define x0 where "x0 = rnd (t / tot)"
  define x2 where "x2 = (if (if x0 < 0 then 0 else x0) > 1 then 1 else (if x0 < 0 then 0 else x0))"
  define col0 where "col0 = double_to_int (rnd (x2 * of_int (width - 1)))"
  define col1 where "col1 = (if col0 < 0 then 0 else col0)"
  define col2 where "col2 = (if col1 \<ge> width then width - 1 else col1)"
  have eq: "time_to_col rnd t tot width = Inr col2"
    using False nz
    by (simp add: time_to_col_def fdiv_def Let_def col2_def col1_def col0_def x2_def x0_def)
  have "0 \<le> col1" by (simp add: col1_def)
  with assms have "0 \<le> col2" "col2 \<le> width - 1"
    by (auto simp: col2_def)
  with eq that show thesis by blast
qed

text \<open>
  C4. For every time \<open>t\<close> and every \<open>width \<ge> 1\<close>: when \<open>total \<le> 0\<close> the function
  returns column 0, and it does so without dividing (a division by \<open>total = 0\<close> would be
  the fault \<open>DivisionByZero\<close>, and the function never returns a fault); for every
  \<open>total\<close> the column lies in \<open>[0, width - 1]\<close>. This holds whatever the rounding \<open>rnd\<close>
  of the double operations is.
\<close>

theorem time_to_col_safe:
  assumes "1 \<le> width"
  shows "\<exists>c. time_to_col rnd t tot width = Inr c \<and> 0 \<le> c \<and> c \<le> width - 1
             \<and> (tot \<le> 0 \<longrightarrow> c = 0)"
proof -
  obtain c where c: "time_to_col rnd t tot width = Inr c" "0 \<le> c" "c \<le> width - 1"
    using assms by (rule time_to_col_cases)
  moreover have "tot \<le> 0 \<longrightarrow> c = 0"
    using c(1) by (auto simp: time_to_col_total_nonpos)
  ultimately show ?thesis by blast
qed

theorem time_to_col_safe_witness:
  "time_to_col (\<lambda>x. x) 5 0 40 = Inr 0
   \<and> (\<exists>c. time_to_col (\<lambda>x. x) 5 10 40 = Inr c \<and> 0 \<le> c \<and> c \<le> 39)"
  using time_to_col_safe [of 40 "\<lambda>x. x" 5 0] time_to_col_safe [of 40 "\<lambda>x. x" 5 10]
  by simp

section \<open>Drawing one event\<close>

lemma store_ok: "0 \<le> i \<Longrightarrow> nat i < length a \<Longrightarrow> store a i v = Inr (a[nat i := v])"
  by (simp add: store_def)

declare paint_cols.simps [simp del]

lemma paint_cols_fill:
  assumes "0 \<le> c" "width \<le> int (length row)"
  shows "\<exists>row'. paint_cols row width c c1 ch = Inr row' \<and> length row' = length row
           \<and> (\<forall>j<length row. row' ! j =
                 (if c \<le> int j \<and> int j \<le> c1 \<and> int j < width then ch else row ! j))"
  using assms
proof (induction row width c c1 ch rule: paint_cols.induct)
  case (1 row width c c1 ch)
  show ?case
  proof (cases "c \<le> c1 \<and> c < width")
    case False
    have "paint_cols row width c c1 ch = Inr row"
      by (subst paint_cols.simps) (use False in auto)
    with False show ?thesis by auto
  next
    case True
    with "1.prems" have inr: "nat c < length row" by linarith
    with "1.prems" have st: "store row c ch = Inr (row[nat c := ch])"
      by (simp add: store_ok)
    have "0 \<le> c + 1" "width \<le> int (length (row[nat c := ch]))"
      using "1.prems" by simp_all
    from "1.IH" [OF True st this]
    obtain row' where r: "paint_cols (row[nat c := ch]) width (c + 1) c1 ch = Inr row'"
        "length row' = length row"
        "\<forall>j<length row. row' ! j =
            (if c + 1 \<le> int j \<and> int j \<le> c1 \<and> int j < width then ch
             else row[nat c := ch] ! j)"
      by auto
    have eq: "paint_cols row width c c1 ch = Inr row'"
      by (subst paint_cols.simps) (use True st r(1) in simp)
    have "row' ! j = (if c \<le> int j \<and> int j \<le> c1 \<and> int j < width then ch else row ! j)"
      if "j < length row" for j
    proof (cases "j = nat c")
      case True
      with r(3) that \<open>0 \<le> c\<close> \<open>c \<le> c1 \<and> c < width\<close> show ?thesis by simp
    next
      case False
      with r(3) that \<open>0 \<le> c\<close> show ?thesis by (auto simp: nth_list_update)
    qed
    with eq r(2) show ?thesis by blast
  qed
qed

lemma digit_char_decimal: "0 \<le> d \<Longrightarrow> d \<le> 9 \<Longrightarrow> digit_char d = ''0123456789'' ! nat d"
proof -
  assume "0 \<le> d" "d \<le> 9"
  then have "d \<in> {0, 1, 2, 3, 4, 5, 6, 7, 8, 9}" by simp presburger
  then show ?thesis
    by (auto simp: digit_char_def char_of_def)
qed

lemma annotate_cases:
  assumes "0 \<le> c0" "width \<le> int (length row)"
  shows "\<exists>row'. annotate row width e c0 = Inr row' \<and> length row' = length row
     \<and> (\<forall>j<length row. int j \<noteq> c0 \<and> int j \<noteq> c0 + 1 \<and> int j \<noteq> c0 + 2 \<longrightarrow> row' ! j = row ! j)
     \<and> (row' ! nat c0 = row ! nat c0 \<or> row' ! nat c0 = stage e)
     \<and> (c0 + 2 < width \<and> 0 \<le> item e \<and> item e \<le> 99 \<longrightarrow>
           row' ! nat c0 = stage e
           \<and> (if item e < 10 then row' ! nat (c0 + 1) = ''0123456789'' ! nat (item e)
                                \<and> row' ! nat (c0 + 2) = row ! nat (c0 + 2)
               else row' ! nat (c0 + 1) = ''0123456789'' ! nat (item e div 10)
                  \<and> row' ! nat (c0 + 2) = ''0123456789'' ! nat (item e mod 10)))
     \<and> (\<not> (c0 + 2 < width \<and> 0 \<le> item e \<and> item e \<le> 99) \<longrightarrow> row' = row)"
proof (cases "c0 + 2 < width \<and> 0 \<le> item e \<and> item e \<le> 99")
  case False
  then have "annotate row width e c0 = Inr row"
    by (auto simp: annotate_def Let_def)
  with False show ?thesis by auto
next
  case True
  with assms have len: "nat c0 < length row" "nat (c0 + 1) < length row" "nat (c0 + 2) < length row"
    by linarith+
  have ne: "nat c0 \<noteq> nat (c0 + 1)" "nat c0 \<noteq> nat (c0 + 2)" "nat (c0 + 1) \<noteq> nat (c0 + 2)"
    using assms(1) by linarith+
  show ?thesis
  proof (cases "item e < 10")
    case lt: True
    with True have d: "digit_char (item e) = ''0123456789'' ! nat (item e)"
      by (intro digit_char_decimal) auto
    define r where "r = row[nat c0 := stage e, nat (c0 + 1) := ''0123456789'' ! nat (item e)]"
    have "annotate row width e c0 = Inr r"
      using True lt len assms(1) d by (simp add: annotate_def Let_def store_def r_def)
    moreover have "length r = length row" by (simp add: r_def)
    moreover have "\<forall>j<length row. int j \<noteq> c0 \<and> int j \<noteq> c0 + 1 \<and> int j \<noteq> c0 + 2 \<longrightarrow> r ! j = row ! j"
      using assms(1) by (auto simp: r_def nth_list_update)
    moreover have "r ! nat c0 = stage e" "r ! nat (c0 + 1) = ''0123456789'' ! nat (item e)"
       "r ! nat (c0 + 2) = row ! nat (c0 + 2)"
      using len ne by (simp_all add: r_def nth_list_update)
    ultimately show ?thesis using True lt by auto
  next
    case ge: False
    from True ge have "0 \<le> item e div 10" "item e div 10 \<le> 9"
      "0 \<le> item e mod 10" "item e mod 10 \<le> 9"
      by presburger+
    then have d: "digit_char (item e div 10) = ''0123456789'' ! nat (item e div 10)"
      "digit_char (item e mod 10) = ''0123456789'' ! nat (item e mod 10)"
      by (simp_all add: digit_char_decimal)
    define r where "r = row[nat c0 := stage e, nat (c0 + 1) := ''0123456789'' ! nat (item e div 10),
                           nat (c0 + 2) := ''0123456789'' ! nat (item e mod 10)]"
    have "annotate row width e c0 = Inr r"
      using True ge len assms(1) d by (simp add: annotate_def Let_def store_def r_def)
    moreover have "length r = length row" by (simp add: r_def)
    moreover have "\<forall>j<length row. int j \<noteq> c0 \<and> int j \<noteq> c0 + 1 \<and> int j \<noteq> c0 + 2 \<longrightarrow> r ! j = row ! j"
      using assms(1) by (auto simp: r_def nth_list_update)
    moreover have "r ! nat c0 = stage e" "r ! nat (c0 + 1) = ''0123456789'' ! nat (item e div 10)"
       "r ! nat (c0 + 2) = ''0123456789'' ! nat (item e mod 10)"
      using len ne by (simp_all add: r_def nth_list_update)
    ultimately show ?thesis using True ge by auto
  qed
qed

lemma time_to_col_bounds:
  assumes "1 \<le> width" "time_to_col rnd t tot width = Inr c"
  shows "0 \<le> c" "c \<le> width - 1"
proof -
  obtain c' where "time_to_col rnd t tot width = Inr c'" "0 \<le> c'" "c' \<le> width - 1"
    using assms(1) by (rule time_to_col_cases)
  with assms(2) show "0 \<le> c" "c \<le> width - 1" by simp_all
qed

lemma draw_event_unfold:
  assumes "time_to_col rnd (t_start e) tot width = Inr a"
    and "time_to_col rnd (t_end e) tot width = Inr b"
  shows "draw_event rnd row width e tot =
           (if min a b = max a b then store row (min a b) (stage e)
            else (case paint_cols row width (min a b) (max a b) (stage e) of
                    Inl f \<Rightarrow> Inl f
                  | Inr row' \<Rightarrow> annotate row' width e (min a b)))"
proof -
  have "(if b < a then b else a) = min a b" "(if b < a then a else b) = max a b"
    by (simp_all add: min_def max_def)
  then show ?thesis
    using assms by (simp add: draw_event_def Let_def)
qed

lemma draw_event_result:
  assumes "1 \<le> width" "length row = nat width"
    and a: "time_to_col rnd (t_start e) tot width = Inr a"
    and b: "time_to_col rnd (t_end e) tot width = Inr b"
  shows "\<exists>row'. draw_event rnd row width e tot = Inr row' \<and> length row' = length row
     \<and> (\<forall>j<length row. int j \<noteq> min a b + 1 \<and> int j \<noteq> min a b + 2 \<longrightarrow>
            row' ! j = (if min a b \<le> int j \<and> int j \<le> max a b then stage e else row ! j))
     \<and> (a \<noteq> b \<and> min a b + 2 < width \<and> 0 \<le> item e \<and> item e \<le> 99 \<longrightarrow>
           row' ! nat (min a b) = stage e
           \<and> (if item e < 10 then row' ! nat (min a b + 1) = ''0123456789'' ! nat (item e)
               else row' ! nat (min a b + 1) = ''0123456789'' ! nat (item e div 10)
                  \<and> row' ! nat (min a b + 2) = ''0123456789'' ! nat (item e mod 10)))
     \<and> (\<not> (a \<noteq> b \<and> min a b + 2 < width \<and> 0 \<le> item e \<and> item e \<le> 99) \<longrightarrow>
           (\<forall>j<length row. row' ! j =
              (if min a b \<le> int j \<and> int j \<le> max a b then stage e else row ! j)))"
proof -
  define lo where "lo = min a b"
  define hi where "hi = max a b"
  have ab: "0 \<le> a" "a \<le> width - 1" "0 \<le> b" "b \<le> width - 1"
    using time_to_col_bounds [OF assms(1) a] time_to_col_bounds [OF assms(1) b] by simp_all
  then have lohi: "0 \<le> lo" "lo \<le> hi" "hi \<le> width - 1"
    by (simp_all add: lo_def hi_def)
  have wlen: "width \<le> int (length row)" "int (length row) = width"
    using assms(1,2) by simp_all
  have unf: "draw_event rnd row width e tot =
           (if lo = hi then store row lo (stage e)
            else (case paint_cols row width lo hi (stage e) of
                    Inl f \<Rightarrow> Inl f
                  | Inr row' \<Rightarrow> annotate row' width e lo))"
    unfolding lo_def hi_def by (rule draw_event_unfold [OF a b])
  have eqiff: "lo = hi \<longleftrightarrow> a = b"
    by (auto simp: lo_def hi_def min_def max_def)
  show ?thesis
  proof (cases "lo = hi")
    case True
    have "nat lo < length row" using lohi wlen True by linarith
    then have "draw_event rnd row width e tot = Inr (row[nat lo := stage e])"
      using unf True lohi by (simp add: store_def)
    moreover have "\<forall>j<length row. (row[nat lo := stage e]) ! j =
              (if lo \<le> int j \<and> int j \<le> hi then stage e else row ! j)"
      using True lohi by (auto simp: nth_list_update)
    ultimately show ?thesis
      using True eqiff unfolding lo_def [symmetric] hi_def [symmetric] by auto
  next
    case False
    obtain r1 where r1: "paint_cols row width lo hi (stage e) = Inr r1" "length r1 = length row"
      "\<forall>j<length row. r1 ! j =
          (if lo \<le> int j \<and> int j \<le> hi \<and> int j < width then stage e else row ! j)"
      using paint_cols_fill [OF lohi(1) wlen(1), of hi "stage e"] by blast
    have r1': "\<forall>j<length row. r1 ! j = (if lo \<le> int j \<and> int j \<le> hi then stage e else row ! j)"
      using r1(3) wlen(2) by auto
    have w1: "width \<le> int (length r1)" using r1(2) wlen by simp
    obtain r2 where r2: "annotate r1 width e lo = Inr r2" "length r2 = length r1"
      "\<forall>j<length r1. int j \<noteq> lo \<and> int j \<noteq> lo + 1 \<and> int j \<noteq> lo + 2 \<longrightarrow> r2 ! j = r1 ! j"
      "r2 ! nat lo = r1 ! nat lo \<or> r2 ! nat lo = stage e"
      "lo + 2 < width \<and> 0 \<le> item e \<and> item e \<le> 99 \<longrightarrow>
           r2 ! nat lo = stage e
           \<and> (if item e < 10 then r2 ! nat (lo + 1) = ''0123456789'' ! nat (item e)
                                \<and> r2 ! nat (lo + 2) = r1 ! nat (lo + 2)
               else r2 ! nat (lo + 1) = ''0123456789'' ! nat (item e div 10)
                  \<and> r2 ! nat (lo + 2) = ''0123456789'' ! nat (item e mod 10))"
      "\<not> (lo + 2 < width \<and> 0 \<le> item e \<and> item e \<le> 99) \<longrightarrow> r2 = r1"
      using annotate_cases [OF lohi(1) w1, of e] by blast
    have res: "draw_event rnd row width e tot = Inr r2"
      using unf False r1(1) r2(1) by simp
    have lo_in: "nat lo < length row" using lohi wlen by linarith
    then have r1lo: "r1 ! nat lo = stage e"
      using r1' lohi by simp
    then have r2lo: "r2 ! nat lo = stage e" using r2(4) by auto
    have p1: "\<forall>j<length row. int j \<noteq> lo + 1 \<and> int j \<noteq> lo + 2 \<longrightarrow>
            r2 ! j = (if lo \<le> int j \<and> int j \<le> hi then stage e else row ! j)"
    proof (intro allI impI)
      fix j assume j: "j < length row" "int j \<noteq> lo + 1 \<and> int j \<noteq> lo + 2"
      show "r2 ! j = (if lo \<le> int j \<and> int j \<le> hi then stage e else row ! j)"
      proof (cases "int j = lo")
        case True
        then have "j = nat lo" by simp
        with r2lo lohi True show ?thesis by simp
      next
        case False
        with j r2(3) r1(2) have "r2 ! j = r1 ! j" by simp
        with r1' j show ?thesis by simp
      qed
    qed
    have p3: "\<not> (lo + 2 < width \<and> 0 \<le> item e \<and> item e \<le> 99) \<longrightarrow>
           (\<forall>j<length row. r2 ! j = (if lo \<le> int j \<and> int j \<le> hi then stage e else row ! j))"
      using r2(6) r1' by auto
    have p2: "lo + 2 < width \<and> 0 \<le> item e \<and> item e \<le> 99 \<longrightarrow>
           r2 ! nat lo = stage e
           \<and> (if item e < 10 then r2 ! nat (lo + 1) = ''0123456789'' ! nat (item e)
               else r2 ! nat (lo + 1) = ''0123456789'' ! nat (item e div 10)
                  \<and> r2 ! nat (lo + 2) = ''0123456789'' ! nat (item e mod 10))"
      using r2(5) by auto
    show ?thesis
      unfolding lo_def [symmetric] hi_def [symmetric]
      using res r2(2) r1(2) p1 p2 p3 False eqiff by auto
  qed
qed

text \<open>
  C7. \<open>a\<close> and \<open>b\<close> are the columns computed for the start and the end of the
  event, so that the columns after the swap are \<open>min a b\<close> and \<open>max a b\<close>.
  \<^item> \<open>draw_event\<close> never fails, and the row keeps its length.
  \<^item> For an item id outside \<open>[0, 99]\<close> the new row is the old one with the stage
    character in exactly the columns \<open>min a b, \<dots>, max a b\<close>: no digit is written.
  \<^item> For an item id in \<open>[0, 99]\<close>, when the event spans more than one column
    (\<open>a \<noteq> b\<close>) and the start column has two columns after it
    (\<open>min a b + 2 < width\<close>), the start column holds the stage character and the next
    column, or the next two, hold the one or two decimal digits of the item id.
\<close>

theorem draw_event_item_annotation:
  assumes "1 \<le> width" "length row = nat width"
    and "time_to_col rnd (t_start e) tot width = Inr a"
    and "time_to_col rnd (t_end e) tot width = Inr b"
  shows "\<exists>row'. draw_event rnd row width e tot = Inr row' \<and> length row' = length row \<and>
     (if item e < 0 \<or> 99 < item e
      then (\<forall>j<length row. row' ! j =
              (if min a b \<le> int j \<and> int j \<le> max a b then stage e else row ! j))
      else (a \<noteq> b \<and> min a b + 2 < width \<longrightarrow>
              row' ! nat (min a b) = stage e
              \<and> (if item e < 10
                  then row' ! nat (min a b + 1) = ''0123456789'' ! nat (item e)
                  else row' ! nat (min a b + 1) = ''0123456789'' ! nat (item e div 10)
                     \<and> row' ! nat (min a b + 2) = ''0123456789'' ! nat (item e mod 10))))"
proof -
  from draw_event_result [OF assms]
  obtain row' where r: "draw_event rnd row width e tot = Inr row'" "length row' = length row"
    and ann: "a \<noteq> b \<and> min a b + 2 < width \<and> 0 \<le> item e \<and> item e \<le> 99 \<longrightarrow>
           row' ! nat (min a b) = stage e
           \<and> (if item e < 10 then row' ! nat (min a b + 1) = ''0123456789'' ! nat (item e)
               else row' ! nat (min a b + 1) = ''0123456789'' ! nat (item e div 10)
                  \<and> row' ! nat (min a b + 2) = ''0123456789'' ! nat (item e mod 10))"
    and plain: "\<not> (a \<noteq> b \<and> min a b + 2 < width \<and> 0 \<le> item e \<and> item e \<le> 99) \<longrightarrow>
           (\<forall>j<length row. row' ! j =
              (if min a b \<le> int j \<and> int j \<le> max a b then stage e else row ! j))"
    by blast
  show ?thesis
  proof (cases "item e < 0 \<or> 99 < item e")
    case True
    then have "\<not> (a \<noteq> b \<and> min a b + 2 < width \<and> 0 \<le> item e \<and> item e \<le> 99)"
      by linarith
    with plain have "\<forall>j<length row. row' ! j =
              (if min a b \<le> int j \<and> int j \<le> max a b then stage e else row ! j)"
      by blast
    with r True show ?thesis by auto
  next
    case False
    then have "0 \<le> item e \<and> item e \<le> 99" by linarith
    with ann r False show ?thesis by auto
  qed
qed

theorem draw_event_item_annotation_witness:
  "(\<exists>row'. draw_event (\<lambda>x. x) (replicate 40 (CHR ''.'')) 40
              \<lparr>item = 123, stage = CHR ''A'', tid = 0, t_start = 1 / 4, t_end = 1 / 2\<rparr> 1 = Inr row'
         \<and> length row' = 40
         \<and> row' ! 8 = CHR ''.'' \<and> row' ! 9 = CHR ''A'' \<and> row' ! 10 = CHR ''A''
         \<and> row' ! 11 = CHR ''A'' \<and> row' ! 19 = CHR ''A'' \<and> row' ! 20 = CHR ''.'')
   \<and> (\<exists>row'. draw_event (\<lambda>x. x) (replicate 40 (CHR ''.'')) 40
              \<lparr>item = 12, stage = CHR ''A'', tid = 0, t_start = 1 / 4, t_end = 1 / 2\<rparr> 1 = Inr row'
         \<and> row' ! 9 = CHR ''A'' \<and> row' ! 10 = CHR ''1'' \<and> row' ! 11 = CHR ''2'')
   \<and> (\<exists>row'. draw_event (\<lambda>x. x) (replicate 40 (CHR ''.'')) 40
              \<lparr>item = 7, stage = CHR ''B'', tid = 0, t_start = 1 / 4, t_end = 1 / 2\<rparr> 1 = Inr row'
         \<and> row' ! 9 = CHR ''B'' \<and> row' ! 10 = CHR ''7'')"
proof -
  let ?row = "replicate 40 (CHR ''.'')"
  have w: "(1::int) \<le> 40" "length ?row = nat 40" by simp_all
  have c: "time_to_col (\<lambda>x. x) (1 / 4) 1 40 = Inr 9" "time_to_col (\<lambda>x. x) (1 / 2) 1 40 = Inr 19"
    by (simp_all add: time_to_col_def fdiv_def double_to_int_def Let_def)
  let ?e = "\<lparr>item = 123, stage = CHR ''A'', tid = 0, t_start = 1 / 4, t_end = 1 / 2\<rparr>"
  from draw_event_item_annotation [of 40 ?row "\<lambda>x. x" ?e 1 9 19] c
  obtain r where r: "draw_event (\<lambda>x. x) ?row 40 ?e 1 = Inr r" "length r = 40"
    "\<forall>j<40. r ! j = (if 9 \<le> j \<and> j \<le> 19 then CHR ''A'' else ?row ! j)"
    by auto
  have "r ! 8 = CHR ''.''" "r ! 9 = CHR ''A''" "r ! 10 = CHR ''A''" "r ! 11 = CHR ''A''"
    "r ! 19 = CHR ''A''" "r ! 20 = CHR ''.''"
    using r(3) by simp_all
  with r(1,2) have first: "\<exists>row'. draw_event (\<lambda>x. x) ?row 40 ?e 1 = Inr row'
         \<and> length row' = 40
         \<and> row' ! 8 = CHR ''.'' \<and> row' ! 9 = CHR ''A'' \<and> row' ! 10 = CHR ''A''
         \<and> row' ! 11 = CHR ''A'' \<and> row' ! 19 = CHR ''A'' \<and> row' ! 20 = CHR ''.''"
    by blast
  show ?thesis
    using first
      draw_event_item_annotation [of 40 ?row "\<lambda>x. x"
        "\<lparr>item = 12, stage = CHR ''A'', tid = 0, t_start = 1 / 4, t_end = 1 / 2\<rparr>" 1 9 19]
      draw_event_item_annotation [of 40 ?row "\<lambda>x. x"
        "\<lparr>item = 7, stage = CHR ''B'', tid = 0, t_start = 1 / 4, t_end = 1 / 2\<rparr>" 1 9 19]
      c
    by simp blast
qed



lemma double_to_int_mono: "x \<le> y \<Longrightarrow> double_to_int x \<le> double_to_int y"
proof -
  assume xy: "x \<le> y"
  consider "0 \<le> x" | "x < 0" "0 \<le> y" | "y < 0" using xy by linarith
  then show ?thesis
  proof cases
    case 1
    with xy show ?thesis by (simp add: double_to_int_def floor_mono)
  next
    case 2
    then have "\<lceil>x\<rceil> \<le> 0" "0 \<le> \<lfloor>y\<rfloor>" by (simp_all add: ceiling_le_zero)
    then have "\<lceil>x\<rceil> \<le> \<lfloor>y\<rfloor>" by linarith
    with 2 show ?thesis by (simp add: double_to_int_def)
  next
    case 3
    with xy have "x < 0" by linarith
    with 3 xy show ?thesis by (simp add: double_to_int_def ceiling_mono)
  qed
qed

lemma time_to_col_mono_cols:
  assumes "mono rnd" "1 \<le> width" "t1 \<le> t2"
    and "time_to_col rnd t1 tot width = Inr c1"
    and "time_to_col rnd t2 tot width = Inr c2"
  shows "c1 \<le> c2"
proof (cases "tot \<le> 0")
  case True
  with assms(4,5) show ?thesis by (simp add: time_to_col_def)
next
  case False
  then have pos: "0 < tot" by simp
  define clamp where "clamp x = (if (if x < 0 then 0 else x) > 1 then 1 else (if x < 0 then 0 else x))"
    for x :: real
  define col where "col x = (let c0 = double_to_int (rnd (x * of_int (width - 1)));
              c1 = (if c0 < 0 then 0 else c0) in (if c1 \<ge> width then width - 1 else c1))" for x
  have eq: "time_to_col rnd t tot width = Inr (col (clamp (rnd (t / tot))))" for t
    using pos by (simp add: time_to_col_def fdiv_def Let_def col_def clamp_def)
  have "t1 / tot \<le> t2 / tot" using assms(3) pos by (simp add: divide_right_mono)
  then have "rnd (t1 / tot) \<le> rnd (t2 / tot)" using assms(1) by (rule monoD [rotated])
  then have x: "clamp (rnd (t1 / tot)) \<le> clamp (rnd (t2 / tot))"
    by (simp add: clamp_def)
  have "col x \<le> col y" if "x \<le> y" for x y
  proof -
    have "x * of_int (width - 1) \<le> y * of_int (width - 1)"
      using that assms(2) by (simp add: mult_right_mono)
    then have "rnd (x * of_int (width - 1)) \<le> rnd (y * of_int (width - 1))"
      using assms(1) by (rule monoD [rotated])
    then have "double_to_int (rnd (x * of_int (width - 1))) \<le> double_to_int (rnd (y * of_int (width - 1)))"
      by (rule double_to_int_mono)
    then show ?thesis by (simp add: col_def Let_def)
  qed
  with x have "col (clamp (rnd (t1 / tot))) \<le> col (clamp (rnd (t2 / tot)))" by blast
  with eq assms(4,5) show ?thesis by simp
qed

text \<open>
  C9. For \<open>total > 0\<close> and \<open>width \<ge> 1\<close> the column is monotone in the time, for any
  monotone rounding \<open>rnd\<close> of the double operations (rounding to nearest is monotone,
  and so is exact arithmetic). Hence for an event with \<open>t_start \<le> t_end\<close> the end
  column is not before the start column, and \<open>draw_event\<close> computes what its code
  without the swap block (lines 165-169) computes.
\<close>

theorem time_to_col_monotone:
  assumes "mono rnd" "1 \<le> width"
  shows "(0 < tot \<and> t1 \<le> t2 \<longrightarrow>
           (\<exists>c1 c2. time_to_col rnd t1 tot width = Inr c1
                  \<and> time_to_col rnd t2 tot width = Inr c2 \<and> c1 \<le> c2))
       \<and> (t_start e \<le> t_end e \<longrightarrow>
           (\<exists>a b. time_to_col rnd (t_start e) tot width = Inr a
                \<and> time_to_col rnd (t_end e) tot width = Inr b \<and> a \<le> b
                \<and> draw_event rnd row width e tot =
                    (if a = b then store row a (stage e)
                     else (case paint_cols row width a b (stage e) of
                             Inl f \<Rightarrow> Inl f
                           | Inr row' \<Rightarrow> annotate row' width e a))))"
proof (intro conjI impI)
  assume h: "0 < tot \<and> t1 \<le> t2"
  obtain c1 where c1: "time_to_col rnd t1 tot width = Inr c1"
    using assms(2) by (rule time_to_col_cases)
  obtain c2 where c2: "time_to_col rnd t2 tot width = Inr c2"
    using assms(2) by (rule time_to_col_cases)
  from h have "t1 \<le> t2" by simp
  from time_to_col_mono_cols [OF assms this c1 c2] c1 c2
  show "\<exists>c1 c2. time_to_col rnd t1 tot width = Inr c1
                  \<and> time_to_col rnd t2 tot width = Inr c2 \<and> c1 \<le> c2"
    by blast
next
  assume h: "t_start e \<le> t_end e"
  obtain a where a: "time_to_col rnd (t_start e) tot width = Inr a"
    using assms(2) by (rule time_to_col_cases)
  obtain b where b: "time_to_col rnd (t_end e) tot width = Inr b"
    using assms(2) by (rule time_to_col_cases)
  have le: "a \<le> b" by (rule time_to_col_mono_cols [OF assms h a b])
  then have mm: "min a b = a" "max a b = b" by simp_all
  have "draw_event rnd row width e tot =
                    (if a = b then store row a (stage e)
                     else (case paint_cols row width a b (stage e) of
                             Inl f \<Rightarrow> Inl f
                           | Inr row' \<Rightarrow> annotate row' width e a))"
    using draw_event_unfold [OF a b, of row] unfolding mm by simp
  with a b le show "\<exists>a b. time_to_col rnd (t_start e) tot width = Inr a
                \<and> time_to_col rnd (t_end e) tot width = Inr b \<and> a \<le> b
                \<and> draw_event rnd row width e tot =
                    (if a = b then store row a (stage e)
                     else (case paint_cols row width a b (stage e) of
                             Inl f \<Rightarrow> Inl f
                           | Inr row' \<Rightarrow> annotate row' width e a))"
    by blast
qed

theorem time_to_col_monotone_witness:
  "mono (\<lambda>x::real. real_of_int \<lfloor>x * 1024\<rfloor> / 1024)
   \<and> (\<exists>c1 c2. time_to_col (\<lambda>x. real_of_int \<lfloor>x * 1024\<rfloor> / 1024) (1 / 3) 2 40 = Inr c1
            \<and> time_to_col (\<lambda>x. real_of_int \<lfloor>x * 1024\<rfloor> / 1024) (5 / 3) 2 40 = Inr c2 \<and> c1 \<le> c2)
   \<and> (\<exists>a b. time_to_col (\<lambda>x. real_of_int \<lfloor>x * 1024\<rfloor> / 1024)
              (t_start \<lparr>item = 3, stage = CHR ''B'', tid = 1, t_start = 1 / 3, t_end = 5 / 3\<rparr>) 2 40 = Inr a
          \<and> time_to_col (\<lambda>x. real_of_int \<lfloor>x * 1024\<rfloor> / 1024)
              (t_end \<lparr>item = 3, stage = CHR ''B'', tid = 1, t_start = 1 / 3, t_end = 5 / 3\<rparr>) 2 40 = Inr b
          \<and> a \<le> b)"
proof -
  let ?rnd = "\<lambda>x::real. real_of_int \<lfloor>x * 1024\<rfloor> / 1024"
  let ?e = "\<lparr>item = 3, stage = CHR ''B'', tid = 1, t_start = 1 / 3, t_end = 5 / 3\<rparr>"
  have m: "mono ?rnd"
    by (intro monoI divide_right_mono of_int_le_iff [THEN iffD2] floor_mono mult_right_mono) simp_all
  have w: "(1::int) \<le> 40" by simp
  from time_to_col_monotone [OF m w, of 2 "1 / 3" "5 / 3" ?e "replicate 40 (CHR ''.'')"] m
  show ?thesis by simp
qed

section \<open>The order of the printed event list\<close>




















section \<open>Parsing the arguments\<close>

lemma isdigit_not_space: "isdigit c \<Longrightarrow> \<not> isspace c"
  by (auto simp: isdigit_def isspace_def)

lemma isdigit_not_sign: "isdigit c \<Longrightarrow> c \<noteq> CHR ''-'' \<and> c \<noteq> CHR ''+''"
  by (auto simp: isdigit_def)

lemma digit_value_nonneg: "isdigit c \<Longrightarrow> 0 \<le> digit_value c"
  by (auto simp: isdigit_def digit_value_def)

lemma foldl_decimal_nonneg:
  "0 \<le> acc \<Longrightarrow> \<forall>c\<in>set ds. isdigit c \<Longrightarrow>
     0 \<le> foldl (\<lambda>acc c. 10 * acc + digit_value c) acc ds"
proof (induction ds arbitrary: acc)
  case Nil
  then show ?case by simp
next
  case (Cons d ds)
  then have "0 \<le> 10 * acc + digit_value d"
    using digit_value_nonneg [of d] by simp
  with Cons show ?case by simp
qed

lemma decimal_nonneg: "\<forall>c\<in>set ds. isdigit c \<Longrightarrow> 0 \<le> decimal ds"
  by (simp add: decimal_def foldl_decimal_nonneg)

lemma strtol_digits:
  assumes "s \<noteq> []" "\<forall>c\<in>set s. isdigit c" "decimal s \<le> LONG_MAX"
  shows "strtol s = (decimal s, length s, False)"
proof -
  obtain c cs where s: "s = c # cs" using assms(1) by (cases s) auto
  with assms(2) have c: "isdigit c" by simp
  have ws: "takeWhile isspace s = []" "dropWhile isspace s = s"
    using s c isdigit_not_space by simp_all
  have sg: "take (Suc 0) s \<noteq> ''-''" "take (Suc 0) s \<noteq> ''+''"
    using s c isdigit_not_sign by auto
  have ds: "takeWhile isdigit s = s"
    using assms(2) by (simp add: takeWhile_eq_all_conv)
  have "0 \<le> decimal s" using assms(2) by (rule decimal_nonneg)
  then have "\<not> decimal s < LONG_MIN" by (simp add: LONG_MIN_def)
  with assms(1,3) show ?thesis
    by (simp add: strtol_def Let_def ws sg ds)
qed


text \<open>
  C10. An argument \<open>s\<close> made of decimal digits only, whose value \<open>decimal s\<close> fits
  \<^verbatim>\<open>long\<close>: \<^verbatim>\<open>strtol\<close> reports no error and consumes the whole string, so each of
  the three parsers accepts it (the one of \<^verbatim>\<open>omp_tasks_depend.c\<close> when the value is
  positive) and returns the value cut to 32 bits by the cast \<^verbatim>\<open>(int)v\<close>. The range
  checks of \<^verbatim>\<open>main\<close> then see that value only: the run with the single argument \<open>s\<close>
  is the run for \<open>items = to_int32 (decimal s)\<close>, and with \<open>s\<close> as second argument
  the check of the width is made on \<open>to_int32 (decimal s)\<close>. In the instance that follows the theorem \<open>s\<close> is
  \<open>4294967304 = 2^32 + 8\<close>, taken as 8: accepted as a number of items, refused as a
  width below 40.
\<close>

theorem parse_int_truncates:
  assumes "s \<noteq> []" "\<forall>c\<in>set s. isdigit c" "decimal s \<le> LONG_MAX"
  shows "strtol s = (decimal s, length s, False)
       \<and> (index < length argv \<and> argv ! index = s \<longrightarrow>
            parse_int_or_default_gantt argv index dflt = Inr (to_int32 (decimal s))
          \<and> parse_int_or_default_overlap argv index dflt = Inr (to_int32 (decimal s))
          \<and> (0 < decimal s \<longrightarrow>
               parse_int_or_default_depend argv index dflt = Inr (to_int32 (decimal s))))
       \<and> main_gantt env [prog, s] =
           (if to_int32 (decimal s) \<le> 0 then Inr (stopped [Items_not_positive] [] [])
            else gantt_body env (to_int32 (decimal s)) 80 0)
       \<and> main_overlap env [prog, s] =
           (if to_int32 (decimal s) \<le> 0 then Inr (stopped [Items_not_positive] [] [])
            else overlap_body env (to_int32 (decimal s)) 1)
       \<and> main_gantt env [prog, ''8'', s] =
           (if to_int32 (decimal s) < 40 then Inr (stopped [Width_too_small] [] [])
            else gantt_body env 8 (to_int32 (decimal s)) 0)"
proof -
  have st: "strtol s = (decimal s, length s, False)"
    using assms by (rule strtol_digits)
  have len: "length s \<noteq> 0" using assms(1) by simp
  have p: "parse_int_or_default_gantt argv index dflt = Inr (to_int32 (decimal s))"
       "parse_int_or_default_overlap argv index dflt = Inr (to_int32 (decimal s))"
       "0 < decimal s \<longrightarrow>
               parse_int_or_default_depend argv index dflt = Inr (to_int32 (decimal s))"
    if "index < length argv \<and> argv ! index = s" for argv index dflt
    using that st len
    by (simp_all add: parse_int_or_default_gantt_def parse_int_or_default_overlap_def
        parse_int_or_default_depend_def)
  have g1: "parse_int_or_default_gantt [prog, s] 1 8 = Inr (to_int32 (decimal s))"
    and o1: "parse_int_or_default_overlap [prog, s] 1 8 = Inr (to_int32 (decimal s))"
    by (rule p, simp)+
  have dflts: "parse_int_or_default_gantt [prog, s] 2 80 = Inr 80"
    "parse_int_or_default_gantt [prog, s] 3 0 = Inr 0"
    "parse_int_or_default_overlap [prog, s] 2 1 = Inr 1"
    by (simp_all add: parse_int_or_default_gantt_def parse_int_or_default_overlap_def)
  have mg: "main_gantt env [prog, s] =
           (if to_int32 (decimal s) \<le> 0 then Inr (stopped [Items_not_positive] [] [])
            else gantt_body env (to_int32 (decimal s)) 80 0)"
    unfolding main_gantt_def g1 dflts by simp
  have mo: "main_overlap env [prog, s] =
           (if to_int32 (decimal s) \<le> 0 then Inr (stopped [Items_not_positive] [] [])
            else overlap_body env (to_int32 (decimal s)) 1)"
    unfolding main_overlap_def o1 dflts by simp
  have s8: "strtol ''8'' = (8, 1, False)"
    by (simp add: strtol_def Let_def isspace_def isdigit_def decimal_def digit_value_def
        LONG_MAX_def LONG_MIN_def)
  have w8: "parse_int_or_default_gantt [prog, ''8'', s] 1 8 = Inr 8"
    by (simp add: parse_int_or_default_gantt_def s8 to_int32_def)
  have w2: "parse_int_or_default_gantt [prog, ''8'', s] 2 80 = Inr (to_int32 (decimal s))"
    by (rule p, simp)
  have w3: "parse_int_or_default_gantt [prog, ''8'', s] 3 0 = Inr 0"
    by (simp add: parse_int_or_default_gantt_def)
  have mw: "main_gantt env [prog, ''8'', s] =
           (if to_int32 (decimal s) < 40 then Inr (stopped [Width_too_small] [] [])
            else gantt_body env 8 (to_int32 (decimal s)) 0)"
    unfolding main_gantt_def w8 w2 w3 by simp
  from st p mg mo mw show ?thesis by blast
qed

lemma decimal_4294967304: "decimal ''4294967304'' = 4294967304"
  by (simp add: decimal_def digit_value_def)

theorem parse_int_truncates_witness:
  "parse_int_or_default_gantt [''omp_tasks_pipeline_gantt'', ''4294967304''] 1 8 = Inr 8
   \<and> parse_int_or_default_overlap [''omp_tasks_pipeline_gantt'', ''4294967304''] 1 8 = Inr 8
   \<and> parse_int_or_default_depend [''omp_tasks_pipeline_gantt'', ''4294967304''] 1 8 = Inr 8
   \<and> (\<forall>env. main_gantt env [''omp_tasks_pipeline_gantt'', ''4294967304'']
              = gantt_body env 8 80 0)
   \<and> (\<forall>env. main_overlap env [''omp_tasks_pipeline_gantt'', ''4294967304'']
              = overlap_body env 8 1)
   \<and> (\<forall>env. main_gantt env [''omp_tasks_pipeline_gantt'', ''8'', ''4294967304'']
              = Inr \<lparr>exit_code = 1, err = [Width_too_small],
                     allocated = [], leaked = [], ran = 0, shown = [], chart = []\<rparr>)"
proof -
  let ?s = "''4294967304''"
  have h: "?s \<noteq> []" "\<forall>c\<in>set ?s. isdigit c" "decimal ?s \<le> LONG_MAX"
    by (simp_all add: isdigit_def decimal_4294967304 LONG_MAX_def)
  have v: "to_int32 (decimal ?s) = 8" "0 < decimal ?s"
    by (simp_all add: decimal_4294967304 to_int32_def)
  show ?thesis
    using parse_int_truncates [OF h, of 1 "[''omp_tasks_pipeline_gantt'', ?s]" 8 _ "''omp_tasks_pipeline_gantt''"]
    using v by (simp add: stopped_def)
qed

section \<open>The event log of a run\<close>






















section \<open>Arguments, allocation and exit codes\<close>
























text \<open>
  C6. The source releases the token arrays when the allocation of the event log fails
  (gantt lines 233-238, overlap lines 173-178), and everything allocated when a row of
  the chart cannot be allocated. When the allocation of a token array fails it returns
  at once (gantt lines 225-228, overlap lines 162-165): with \<^verbatim>\<open>token_a\<close> allocated
  and \<^verbatim>\<open>token_b\<close> not, the run ends with exit code 1, the line on \<^verbatim>\<open>stderr\<close> and no
  task executed, but \<^verbatim>\<open>token_a\<close> is never passed to \<^verbatim>\<open>free\<close>: with the default
  arguments in both programs, and with 700000000 items, where each token array takes
  2.8 GB. The last two equations are the path of the event log, where nothing is left
  allocated.
\<close>

theorem token_failure_leaks:
  "main_gantt (env\<lparr>env_calloc_ok := (\<lambda>b. b \<noteq> TokenB)\<rparr>) [prog] =
     Inr \<lparr>exit_code = 1, err = [Alloc_failure_tokens],
          allocated = [TokenA], leaked = [TokenA], ran = 0, shown = [], chart = []\<rparr>
   \<and> main_overlap (env\<lparr>env_calloc_ok := (\<lambda>b. b \<noteq> TokenB)\<rparr>) [prog] =
     Inr \<lparr>exit_code = 1, err = [Alloc_failure_tokens],
          allocated = [TokenA], leaked = [TokenA], ran = 0, shown = [], chart = []\<rparr>
   \<and> main_gantt (env\<lparr>env_calloc_ok := (\<lambda>b. b \<noteq> TokenB)\<rparr>) [prog, ''700000000''] =
     Inr \<lparr>exit_code = 1, err = [Alloc_failure_tokens],
          allocated = [TokenA], leaked = [TokenA], ran = 0, shown = [], chart = []\<rparr>
   \<and> main_gantt (env\<lparr>env_calloc_ok := (\<lambda>b. b \<noteq> Events)\<rparr>) [prog] =
     Inr \<lparr>exit_code = 1, err = [Alloc_failure_event_log],
          allocated = [TokenA, TokenB], leaked = [], ran = 0, shown = [], chart = []\<rparr>
   \<and> main_overlap (env\<lparr>env_calloc_ok := (\<lambda>b. b \<noteq> Events)\<rparr>) [prog] =
     Inr \<lparr>exit_code = 1, err = [Alloc_failure_event_log],
          allocated = [TokenA, TokenB], leaked = [], ran = 0, shown = [], chart = []\<rparr>"
  by (simp add: main_gantt_def main_overlap_def parse_int_or_default_gantt_def
      parse_int_or_default_overlap_def gantt_body_def overlap_body_def calloc_def
      to_size_t_def to_int32_def got_def stopped_def frees_def Let_def
      strtol_def isspace_def isdigit_def decimal_def digit_value_def LONG_MAX_def LONG_MIN_def)

end
